theory Spec2Isabelle
  imports Main "HOL-Library.Multiset"
begin

section \<open>Data model of \<^verbatim>\<open>main.go\<close>\<close>

text \<open>
  Go strings are \<^typ>\<open>string\<close>, Go \<^verbatim>\<open>int\<close> is \<^typ>\<open>int\<close> (no arithmetic
  is done on these fields), a pointer that may be \<^verbatim>\<open>nil\<close> is an \<^typ>\<open>'a option\<close>.
  A Go \<^verbatim>\<open>error\<close> value is identified with its message; the interface value that
  may be \<^verbatim>\<open>nil\<close> is an \<open>error option\<close>.
  A byte stream (\<^verbatim>\<open>io.Reader\<close>, \<^verbatim>\<open>io.ReadCloser\<close>) is identified by a handle.
\<close>

type_synonym error = string
type_synonym stream = nat

record User =
  ID :: int
  FirstName :: string
  LastName :: string
  Username :: string
  LanguageCode :: string
  IsBot :: bool
  CanJoinGroups :: bool
  CanReadMessages :: bool
  SupportsInline :: bool

text \<open>
  \<^verbatim>\<open>type Update struct\<close>: the sequence number and thirteen optional payload pointers.
  The payload structs are inert records; the types of the payloads are parameters.
\<close>

record ('m, 'c, 'q, 'r, 's, 'k, 'p, 'a, 'u) Update =
  ID :: int
  Message :: "'m option"
  EditedMessage :: "'m option"
  ChannelPost :: "'m option"
  EditedChannelPost :: "'m option"
  Callback :: "'c option"
  Query :: "'q option"
  ChosenInlineResult :: "'r option"
  ShippingQuery :: "'s option"
  PreCheckoutQuery :: "'k option"
  Poll :: "'p option"
  PollAnswer :: "'a option"
  MyChatMember :: "'u option"
  ChatMember :: "'u option"

text \<open>
  \<^verbatim>\<open>type Bot struct\<close>. \<open>Updates\<close> is the content of the channel, \<open>Poller\<close> the
  poller value; their types are parameters. The unexported HTTP client is part of the
  environment below.
\<close>

record ('upd, 'plr) Bot =
  Me :: "User option"
  Token :: string
  URL :: string
  Updates :: "'upd list"
  Poller :: 'plr

record File =
  FileID :: string
  UniqueID :: string
  FileSize :: int
  FilePath :: string
  FileLocal :: string
  FileURL :: string
  FileReader :: "stream option"

text \<open>The fields of \<^verbatim>\<open>http.Response\<close> that \<^verbatim>\<open>GetFile\<close> reads.\<close>

record Response =
  StatusCode :: int
  Status :: string
  Body :: stream

section \<open>\<^verbatim>\<open>GetFile\<close>\<close>

text \<open>
  What \<^verbatim>\<open>GetFile\<close> does to the outside world, in the order it does it:
  the metadata call \<^verbatim>\<open>b.FileByID(id)\<close>, the request \<^verbatim>\<open>b.client.Do(req)\<close>
  for a URL, and \<^verbatim>\<open>resp.Body.Close()\<close>.
\<close>

datatype event = MetadataCall string | HttpDo string | BodyClose stream

text \<open>
  The functions \<^verbatim>\<open>GetFile\<close> calls that are not defined in \<^verbatim>\<open>main.go\<close> are
  parameters. The two that talk to the network may answer differently every time, so they
  also see the events so far.
  \<^item> \<open>FileByID\<close>: \<^verbatim>\<open>b.FileByID(fileID)\<close>, returning \<^verbatim>\<open>(f, err)\<close>;
  \<^item> \<open>NewRequest\<close>: the error of \<^verbatim>\<open>http.NewRequest(http.MethodGet, url, nil)\<close>,
    \<open>None\<close> when the request is built;
  \<^item> \<open>Do\<close>: \<^verbatim>\<open>b.client.Do(req)\<close> for the request to a URL: an error, or a response;
  \<^item> \<open>wrapError\<close>: \<^verbatim>\<open>wrapError(err)\<close>, an \<^verbatim>\<open>error\<close> that may be \<^verbatim>\<open>nil\<close>.
\<close>

record ('upd, 'plr) env =
  FileByID :: "('upd, 'plr) Bot \<Rightarrow> event list \<Rightarrow> string \<Rightarrow> File \<times> error option"
  NewRequest :: "string \<Rightarrow> error option"
  Do :: "event list \<Rightarrow> string \<Rightarrow> error + Response"
  wrapError :: "error \<Rightarrow> error option"

text \<open>
  The program state a caller of \<^verbatim>\<open>GetFile\<close> can see: the bot, the \<^verbatim>\<open>File\<close>
  objects by address (\<^verbatim>\<open>GetFile\<close> takes a \<^verbatim>\<open>*File\<close>), and the events so far,
  oldest first.
\<close>

record ('upd, 'plr) state =
  bot :: "('upd, 'plr) Bot"
  files :: "nat \<rightharpoonup> File"
  calls :: "event list"

definition file_url :: "('upd, 'plr) Bot \<Rightarrow> File \<Rightarrow> string" where
  "file_url b f = URL b @ ''/file/bot'' @ Token b @ ''/'' @ FilePath f"

definition status_error :: "Response \<Rightarrow> error" where
  "status_error resp = ''telebot: expected status 200 but got '' @ Status resp"

text \<open>
  \<^verbatim>\<open>func (b *Bot) GetFile(file *File) (io.ReadCloser, error)\<close>.
  The result is \<open>None\<close> when \<^verbatim>\<open>file\<close> points to no \<^verbatim>\<open>File\<close> (reading
  \<^verbatim>\<open>file.FileID\<close> panics before anything is called), and otherwise the returned pair
  with the state after the call.
\<close>

definition GetFile ::
  "('upd, 'plr) env \<Rightarrow> nat \<Rightarrow> ('upd, 'plr) state \<Rightarrow>
     ((stream option \<times> error option) \<times> ('upd, 'plr) state) option" where
  "GetFile e a s =
     (case files s a of
        None \<Rightarrow> None
      | Some file \<Rightarrow>
          (case FileByID e (bot s) (calls s) (FileID file) of
             (f, err) \<Rightarrow>
               let s1 = s\<lparr>calls := calls s @ [MetadataCall (FileID file)]\<rparr> in
               if err \<noteq> None then Some ((None, err), s1)
               else
                 let url = file_url (bot s1) f;
                     s2 = s1\<lparr>files := (files s1)(a \<mapsto> file\<lparr>FilePath := FilePath f\<rparr>)\<rparr>
                 in (case NewRequest e url of
                       Some err \<Rightarrow> Some ((None, wrapError e err), s2)
                     | None \<Rightarrow>
                         let s3 = s2\<lparr>calls := calls s2 @ [HttpDo url]\<rparr> in
                         (case Do e (calls s2) url of
                            Inl err \<Rightarrow> Some ((None, wrapError e err), s3)
                          | Inr resp \<Rightarrow>
                              if StatusCode resp \<noteq> 200
                              then Some ((None, Some (status_error resp)),
                                         s3\<lparr>calls := calls s3 @ [BodyClose (Body resp)]\<rparr>)
                              else Some ((Some (Body resp), None), s3)))))"

text \<open>The metadata calls among the events so far.\<close>

fun is_metadata_call :: "event \<Rightarrow> bool" where
  "is_metadata_call (MetadataCall _) = True"
| "is_metadata_call _ = False"

definition metadata_calls :: "('upd, 'plr) state \<Rightarrow> nat" where
  "metadata_calls s = length (filter is_metadata_call (calls s))"

text \<open>
  Resolving the reference at one address twice in a row: the state between the two
  calls and the state after the second.
\<close>

definition resolve_twice ::
  "('upd, 'plr) env \<Rightarrow> nat \<Rightarrow> ('upd, 'plr) state \<Rightarrow>
     (('upd, 'plr) state \<times> ('upd, 'plr) state) option" where
  "resolve_twice e a s =
     (case GetFile e a s of
        None \<Rightarrow> None
      | Some (r1, s1) \<Rightarrow>
          (case GetFile e a s1 of
             None \<Rightarrow> None
           | Some (r2, s2) \<Rightarrow> Some (s1, s2)))"

text \<open>
  The URL of the binary endpoint as the specification's section 4.2 words it,
  \<^verbatim>\<open>base/bot{token}/{path}\<close>, to compare with \<open>file_url\<close>.
\<close>

definition spec_file_url :: "('upd, 'plr) Bot \<Rightarrow> File \<Rightarrow> string" where
  "spec_file_url b f = URL b @ ''/bot'' @ Token b @ ''/'' @ FilePath f"

subsection \<open>A concrete bot, server and references\<close>

definition example_bot :: "(unit, unit) Bot" where
  "example_bot =
     \<lparr>Me = None, Token = ''42:XYZ'', URL = ''https://api.telegram.org'',
      Updates = [], Poller = ()\<rparr>"

definition remote_file :: File where
  "remote_file =
     \<lparr>FileID = ''AgAD'', UniqueID = ''Q1'', FileSize = 2048, FilePath = [],
      FileLocal = [], FileURL = [], FileReader = None\<rparr>"

definition stream_file :: File where
  "stream_file =
     \<lparr>FileID = [], UniqueID = [], FileSize = 0, FilePath = [],
      FileLocal = [], FileURL = [], FileReader = Some 7\<rparr>"

definition local_file :: File where
  "local_file =
     \<lparr>FileID = [], UniqueID = [], FileSize = 0, FilePath = [],
      FileLocal = ''/tmp/cat.png'', FileURL = [], FileReader = None\<rparr>"

definition server_file :: "string \<Rightarrow> File" where
  "server_file fid =
     \<lparr>FileID = fid, UniqueID = ''Q1'', FileSize = 2048, FilePath = ''documents/file_7.pdf'',
      FileLocal = [], FileURL = [], FileReader = None\<rparr>"

definition empty_file :: File where
  "empty_file =
     \<lparr>FileID = [], UniqueID = [], FileSize = 0, FilePath = [],
      FileLocal = [], FileURL = [], FileReader = None\<rparr>"

text \<open>
  A server that knows every file identifier but the empty one and answers the binary
  request with the given response.
\<close>

definition example_env :: "error + Response \<Rightarrow> (unit, unit) env" where
  "example_env answer =
     \<lparr>FileByID = (\<lambda>b h fid. if fid = [] then (empty_file, Some ''Bad Request: invalid file_id'')
                              else (server_file fid, None)),
      NewRequest = (\<lambda>url. None),
      Do = (\<lambda>h url. answer),
      wrapError = (\<lambda>err. Some (''telebot: '' @ err))\<rparr>"

definition ok_response :: Response where
  "ok_response = \<lparr>StatusCode = 200, Status = ''200 OK'', Body = 42\<rparr>"

definition not_found_response :: Response where
  "not_found_response = \<lparr>StatusCode = 404, Status = ''404 Not Found'', Body = 43\<rparr>"

text \<open>The same server when \<^verbatim>\<open>http.NewRequest\<close> rejects every URL.\<close>

definition bad_url_env :: "(unit, unit) env" where
  "bad_url_env = (example_env (Inr ok_response))\<lparr>NewRequest := (\<lambda>url. Some ''invalid URL'')\<rparr>"

definition example_state :: "(unit, unit) state" where
  "example_state =
     \<lparr>bot = example_bot,
      files = [0 \<mapsto> remote_file, 1 \<mapsto> stream_file, 2 \<mapsto> local_file],
      calls = []\<rparr>"

definition example_url :: string where
  "example_url = ''https://api.telegram.org/file/bot42:XYZ/documents/file_7.pdf''"

section \<open>\<^verbatim>\<open>Update\<close>: populated payload fields\<close>

text \<open>How many of the thirteen payload pointers of an \<^verbatim>\<open>Update\<close> are not \<^verbatim>\<open>nil\<close>.\<close>

definition populated :: "('m, 'c, 'q, 'r, 's, 'k, 'p, 'a, 'u) Update \<Rightarrow> nat" where
  "populated u =
     of_bool (Message u \<noteq> None) + of_bool (EditedMessage u \<noteq> None)
     + of_bool (ChannelPost u \<noteq> None) + of_bool (EditedChannelPost u \<noteq> None)
     + of_bool (Callback u \<noteq> None) + of_bool (Query u \<noteq> None)
     + of_bool (ChosenInlineResult u \<noteq> None) + of_bool (ShippingQuery u \<noteq> None)
     + of_bool (PreCheckoutQuery u \<noteq> None) + of_bool (Poll u \<noteq> None)
     + of_bool (PollAnswer u \<noteq> None) + of_bool (MyChatMember u \<noteq> None)
     + of_bool (ChatMember u \<noteq> None)"

text \<open>The zero value \<^verbatim>\<open>Update{}\<close> with a sequence number, and an update with a message.\<close>

definition bare_update ::
  "int \<Rightarrow> (unit, unit, unit, unit, unit, unit, unit, unit, unit) Update" where
  "bare_update n =
     \<lparr>ID = n, Message = None, EditedMessage = None, ChannelPost = None,
      EditedChannelPost = None, Callback = None, Query = None, ChosenInlineResult = None,
      ShippingQuery = None, PreCheckoutQuery = None, Poll = None, PollAnswer = None,
      MyChatMember = None, ChatMember = None\<rparr>"

definition message_update ::
  "int \<Rightarrow> (unit, unit, unit, unit, unit, unit, unit, unit, unit) Update" where
  "message_update n = (bare_update n)\<lparr>Message := Some ()\<rparr>"

definition example_state1 :: "(unit, unit) state" where
  "example_state1 =
     example_state\<lparr>calls := [MetadataCall ''AgAD'', HttpDo example_url],
       files := (files example_state)(0 \<mapsto> remote_file\<lparr>FilePath := ''documents/file_7.pdf''\<rparr>)\<rparr>"

definition example_state2 :: "(unit, unit) state" where
  "example_state2 =
     example_state1\<lparr>calls := calls example_state1 @ [MetadataCall ''AgAD'', HttpDo example_url]\<rparr>"

definition cached_path :: "nat \<Rightarrow> ('upd, 'plr) state \<Rightarrow> string option" where
  "cached_path a s = map_option FilePath (files s a)"

section \<open>The long-poll strategy\<close>

text \<open>
  Modelled from the spec: \<^verbatim>\<open>main.go\<close> declares the interface \<^verbatim>\<open>Poller\<close> and
  holds no implementation of \<^verbatim>\<open>Poll\<close>, so the loop is the one of section 4.3 of the
  specification. This is what the transport answers to a "get updates" call: a batch
  (steps 2 and 3), a network-level error (step 4) or a remote-reported API error (step 5).
\<close>

datatype 'u fetched = Batch "'u list" | NetworkError | RemoteError

text \<open>
  Modelled from the spec: what one iteration of the missing loop meets. Either the stop
  signal is set when it is checked at the head of the loop, or the fetch is issued and
  the transport answers.
\<close>

datatype 'u tick = StopSignal | Reply "'u fetched"

text \<open>Modelled from the spec: the two states of the missing loop's state machine.\<close>

datatype poller_state = Running | Stopped

text \<open>
  Modelled from the spec: what the missing loop does, one action at a time. \<open>Fetch c\<close> is
  the transport call with offset \<open>c\<close>, \<open>Push u\<close> puts \<open>u\<close> on the update channel,
  \<open>Advance c\<close> sets the cursor to \<open>c\<close>, \<open>Backoff\<close> is the wait after a network error,
  \<open>Fatal\<close> surfaces a remote error to the owner.
\<close>

datatype 'u action = Fetch int | Push 'u | Advance int | Backoff | Fatal

text \<open>
  Modelled from the spec: the missing poller's state is the offset cursor, the state of
  the state machine, and the actions so far, oldest first.
\<close>

record 'u poller =
  cursor :: int
  status :: poller_state
  trace :: "'u action list"

text \<open>
  Modelled from the spec: step 2 of the missing loop sets the cursor to
  \<^verbatim>\<open>max(sequence_id in batch) + 1\<close>. The sequence number of an update is its \<open>ID\<close>.
\<close>

definition next_cursor :: "('m, 'c, 'q, 'r, 's, 'k, 'p, 'a, 'u) Update list \<Rightarrow> int" where
  "next_cursor us = Max (ID ` set us) + 1"

text \<open>
  Modelled from the spec: one iteration of the missing loop of section 4.3. The stop
  signal is checked first; otherwise the fetch is issued with the cursor as offset. A
  batch that is not empty is pushed in ascending order of sequence number and then the
  cursor is set; an empty batch changes nothing; a network error backs off and leaves the
  cursor; a remote error is fatal and stops the loop. \<open>Stopped\<close> is terminal.
\<close>

definition poll_iteration ::
  "('m, 'c, 'q, 'r, 's, 'k, 'p, 'a, 'u) Update tick \<Rightarrow>
   ('m, 'c, 'q, 'r, 's, 'k, 'p, 'a, 'u) Update poller \<Rightarrow>
   ('m, 'c, 'q, 'r, 's, 'k, 'p, 'a, 'u) Update poller" where
  "poll_iteration t p =
     (if status p = Stopped then p
      else case t of
        StopSignal \<Rightarrow> p\<lparr>status := Stopped\<rparr>
      | Reply r \<Rightarrow>
          let p1 = p\<lparr>trace := trace p @ [Fetch (cursor p)]\<rparr> in
          (case r of
             Batch us \<Rightarrow>
               if us = [] then p1
               else p1\<lparr>trace := trace p1 @ map Push (sort_key ID us) @ [Advance (next_cursor us)],
                       cursor := next_cursor us\<rparr>
           | NetworkError \<Rightarrow> p1\<lparr>trace := trace p1 @ [Backoff]\<rparr>
           | RemoteError \<Rightarrow> p1\<lparr>trace := trace p1 @ [Fatal], status := Stopped\<rparr>))"

text \<open>Modelled from the spec: the missing loop, run over what its iterations meet.\<close>

fun poll ::
  "('m, 'c, 'q, 'r, 's, 'k, 'p, 'a, 'u) Update poller \<Rightarrow>
   ('m, 'c, 'q, 'r, 's, 'k, 'p, 'a, 'u) Update tick list \<Rightarrow>
   ('m, 'c, 'q, 'r, 's, 'k, 'p, 'a, 'u) Update poller" where
  "poll p [] = p"
| "poll p (t # ts) = poll (poll_iteration t p) ts"

text \<open>
  Modelled from the spec: the missing poller starts in \<open>Running\<close>, with the cursor it is
  given and nothing done yet.
\<close>

definition start :: "int \<Rightarrow> ('m, 'c, 'q, 'r, 's, 'k, 'p, 'a, 'u) Update poller" where
  "start c = \<lparr>cursor = c, status = Running, trace = []\<rparr>"

text \<open>The updates pushed to the channel, in the order they were pushed.\<close>

fun pushes :: "'u action list \<Rightarrow> 'u list" where
  "pushes [] = []"
| "pushes (Push u # as) = u # pushes as"
| "pushes (_ # as) = pushes as"

definition pushed :: "'u poller \<Rightarrow> 'u list" where
  "pushed p = pushes (trace p)"

text \<open>
  The contract of the remote server for the offset of a "get updates" call: a batch
  fetched with offset \<open>c\<close> holds no sequence number below \<open>c\<close> and none twice.
\<close>

fun honours_offset :: "int \<Rightarrow> ('m, 'c, 'q, 'r, 's, 'k, 'p, 'a, 'u) Update tick \<Rightarrow> bool" where
  "honours_offset c (Reply (Batch us)) = (list_all (\<lambda>u. c \<le> ID u) us \<and> distinct (map ID us))"
| "honours_offset c _ = True"

text \<open>The server honours the offset of every fetch the poller issues on the way.\<close>

fun honoured ::
  "('m, 'c, 'q, 'r, 's, 'k, 'p, 'a, 'u) Update poller \<Rightarrow>
   ('m, 'c, 'q, 'r, 's, 'k, 'p, 'a, 'u) Update tick list \<Rightarrow> bool" where
  "honoured p [] = True"
| "honoured p (t # ts) =
     ((status p = Stopped \<or> honours_offset (cursor p) t) \<and> honoured (poll_iteration t p) ts)"

text \<open>
  The invariant of the loop under that contract: the updates pushed so far carry strictly
  increasing sequence numbers, all below the cursor.
\<close>

definition delivered_in_order :: "('m, 'c, 'q, 'r, 's, 'k, 'p, 'a, 'u) Update poller \<Rightarrow> bool" where
  "delivered_in_order p =
     (sorted_wrt (<) (map ID (pushed p)) \<and> list_all (\<lambda>u. ID u < cursor p) (pushed p))"

section \<open>Command extraction\<close>

text \<open>
  Modelled from the spec: \<^verbatim>\<open>main.go\<close> holds no code that reads the text of a message,
  only the field \<^verbatim>\<open>Payload\<close> of \<^verbatim>\<open>Message\<close> with its comment
  \<^verbatim>\<open>/command <payload>\<close> or \<^verbatim>\<open>/command@botname <payload>\<close>. These are the
  whitespace characters that end the command of section 4.4.
\<close>

definition is_space :: "char \<Rightarrow> bool" where
  "is_space c = (c \<in> set [CHR '' '', CHR 0x09, CHR 0x0A, CHR 0x0B, CHR 0x0C, CHR 0x0D])"

text \<open>
  Modelled from the spec: the extraction of section 4.4 and of the property "Command
  extraction" of section 8, for the missing dispatcher. A text that begins with the
  command prefix \<^verbatim>\<open>/\<close> gives the token after the prefix up to the first whitespace
  or \<^verbatim>\<open>@\<close> as discriminator, and as payload everything after the whitespace that
  ends the command and its \<^verbatim>\<open>@botname\<close> suffix. Any other text is no command.
\<close>

definition extract_command :: "string \<Rightarrow> (string \<times> string) option" where
  "extract_command txt =
     (case txt of
        [] \<Rightarrow> None
      | c # rest \<Rightarrow>
          if c \<noteq> CHR ''/'' then None
          else Some (takeWhile (\<lambda>x. \<not> is_space x \<and> x \<noteq> CHR ''@'') rest,
                     drop 1 (dropWhile (\<lambda>x. \<not> is_space x) rest)))"

section \<open>Properties of \<^verbatim>\<open>GetFile\<close>\<close>

lemma GetFile_nil: "files s a = None \<Longrightarrow> GetFile e a s = None"
  by (simp add: GetFile_def)

lemma GetFile_metadata_failed:
  "files s a = Some file \<Longrightarrow> FileByID e (bot s) (calls s) (FileID file) = (f, Some x) \<Longrightarrow>
   GetFile e a s = Some ((None, Some x), s\<lparr>calls := calls s @ [MetadataCall (FileID file)]\<rparr>)"
  by (simp add: GetFile_def)

lemma GetFile_request_failed:
  "files s a = Some file \<Longrightarrow> FileByID e (bot s) (calls s) (FileID file) = (f, None) \<Longrightarrow>
   NewRequest e (file_url (bot s) f) = Some x \<Longrightarrow>
   GetFile e a s =
     Some ((None, wrapError e x),
           s\<lparr>calls := calls s @ [MetadataCall (FileID file)],
             files := (files s)(a \<mapsto> file\<lparr>FilePath := FilePath f\<rparr>)\<rparr>)"
  by (simp add: GetFile_def)

lemma GetFile_do_failed:
  "files s a = Some file \<Longrightarrow> FileByID e (bot s) (calls s) (FileID file) = (f, None) \<Longrightarrow>
   NewRequest e (file_url (bot s) f) = None \<Longrightarrow>
   Do e (calls s @ [MetadataCall (FileID file)]) (file_url (bot s) f) = Inl x \<Longrightarrow>
   GetFile e a s =
     Some ((None, wrapError e x),
           s\<lparr>calls := calls s @ [MetadataCall (FileID file), HttpDo (file_url (bot s) f)],
             files := (files s)(a \<mapsto> file\<lparr>FilePath := FilePath f\<rparr>)\<rparr>)"
  by (simp add: GetFile_def)

lemma GetFile_bad_status:
  "files s a = Some file \<Longrightarrow> FileByID e (bot s) (calls s) (FileID file) = (f, None) \<Longrightarrow>
   NewRequest e (file_url (bot s) f) = None \<Longrightarrow>
   Do e (calls s @ [MetadataCall (FileID file)]) (file_url (bot s) f) = Inr resp \<Longrightarrow>
   StatusCode resp \<noteq> 200 \<Longrightarrow>
   GetFile e a s =
     Some ((None, Some (status_error resp)),
           s\<lparr>calls := calls s @ [MetadataCall (FileID file), HttpDo (file_url (bot s) f),
                                  BodyClose (Body resp)],
             files := (files s)(a \<mapsto> file\<lparr>FilePath := FilePath f\<rparr>)\<rparr>)"
  by (simp add: GetFile_def)

lemma GetFile_ok:
  "files s a = Some file \<Longrightarrow> FileByID e (bot s) (calls s) (FileID file) = (f, None) \<Longrightarrow>
   NewRequest e (file_url (bot s) f) = None \<Longrightarrow>
   Do e (calls s @ [MetadataCall (FileID file)]) (file_url (bot s) f) = Inr resp \<Longrightarrow>
   StatusCode resp = 200 \<Longrightarrow>
   GetFile e a s =
     Some ((Some (Body resp), None),
           s\<lparr>calls := calls s @ [MetadataCall (FileID file), HttpDo (file_url (bot s) f)],
             files := (files s)(a \<mapsto> file\<lparr>FilePath := FilePath f\<rparr>)\<rparr>)"
  by (simp add: GetFile_def)


lemma GetFile_branches:
  assumes "files s a = Some file"
  obtains
    (meta) f x where "FileByID e (bot s) (calls s) (FileID file) = (f, Some x)"
  | (req) f x where "FileByID e (bot s) (calls s) (FileID file) = (f, None)"
      "NewRequest e (file_url (bot s) f) = Some x"
  | (do) f x where "FileByID e (bot s) (calls s) (FileID file) = (f, None)"
      "NewRequest e (file_url (bot s) f) = None"
      "Do e (calls s @ [MetadataCall (FileID file)]) (file_url (bot s) f) = Inl x"
  | (status) f resp where "FileByID e (bot s) (calls s) (FileID file) = (f, None)"
      "NewRequest e (file_url (bot s) f) = None"
      "Do e (calls s @ [MetadataCall (FileID file)]) (file_url (bot s) f) = Inr resp"
      "StatusCode resp \<noteq> 200"
  | (ok) f resp where "FileByID e (bot s) (calls s) (FileID file) = (f, None)"
      "NewRequest e (file_url (bot s) f) = None"
      "Do e (calls s @ [MetadataCall (FileID file)]) (file_url (bot s) f) = Inr resp"
      "StatusCode resp = 200"
proof -
  obtain f merr where m: "FileByID e (bot s) (calls s) (FileID file) = (f, merr)"
    by (cases "FileByID e (bot s) (calls s) (FileID file)")
  show thesis
  proof (cases merr)
    case (Some x) with m meta show ?thesis by simp
  next
    case None
    note n = None
    show ?thesis
    proof (cases "NewRequest e (file_url (bot s) f)")
      case (Some x) with m n req show ?thesis by simp
    next
      case None
      note r = None
      show ?thesis
      proof (cases "Do e (calls s @ [MetadataCall (FileID file)]) (file_url (bot s) f)")
        case (Inl x) with m n r do show ?thesis by simp
      next
        case (Inr resp)
        with m n r status ok show ?thesis by (cases "StatusCode resp = 200") simp_all
      qed
    qed
  qed
qed

lemma GetFile_total: "files s a = Some file \<Longrightarrow> \<exists>r s'. GetFile e a s = Some (r, s')"
  by (simp add: GetFile_def Let_def split: prod.split option.split sum.split)

lemma GetFile_calls:
  assumes f: "files s a = Some file" and g: "GetFile e a s = Some (r, s')"
  shows "\<exists>rest. calls s' = calls s @ MetadataCall (FileID file) # rest \<and>
           filter is_metadata_call rest = []"
  using f
proof (cases rule: GetFile_branches [where e = e])
  case (meta f x)
  from GetFile_metadata_failed [OF f meta] g show ?thesis by auto
next
  case (req f x)
  from GetFile_request_failed [OF f req] g show ?thesis by auto
next
  case (do f x)
  from GetFile_do_failed [OF f do] g show ?thesis by auto
next
  case (status f resp)
  from GetFile_bad_status [OF f status] g show ?thesis by auto
next
  case (ok f resp)
  from GetFile_ok [OF f ok] g show ?thesis by auto
qed

lemma GetFile_one_metadata_call:
  assumes "files s a = Some file" and "GetFile e a s = Some (r, s')"
  shows "metadata_calls s' = metadata_calls s + 1"
proof -
  from GetFile_calls [OF assms] obtain rest
    where "calls s' = calls s @ MetadataCall (FileID file) # rest"
      and "filter is_metadata_call rest = []" by blast
  then show ?thesis by (simp add: metadata_calls_def)
qed

lemma GetFile_files:
  assumes f: "files s a = Some file" and g: "GetFile e a s = Some (r, s')"
    and m: "FileByID e (bot s) (calls s) (FileID file) = (f, merr)"
  shows "files s' = (if merr = None then (files s)(a \<mapsto> file\<lparr>FilePath := FilePath f\<rparr>) else files s)"
  using f
proof (cases rule: GetFile_branches [where e = e])
  case (meta f' x)
  from GetFile_metadata_failed [OF f meta] g m meta show ?thesis by auto
next
  case (req f' x)
  from GetFile_request_failed [OF f req] g m req show ?thesis by auto
next
  case (do f' x)
  from GetFile_do_failed [OF f do] g m do show ?thesis by auto
next
  case (status f' resp)
  from GetFile_bad_status [OF f status] g m status show ?thesis by auto
next
  case (ok f' resp)
  from GetFile_ok [OF f ok] g m ok show ?thesis by auto
qed

text \<open>
  Claim C2, as amended. \<^verbatim>\<open>GetFile\<close> never looks at the path stored in the reference:
  every resolution of a reference issues one metadata call, so resolving the same
  reference twice issues two. When the metadata call of the first resolution succeeds,
  the path it returned is stored in the reference's \<open>FilePath\<close>.
\<close>

theorem resolve_twice_metadata_calls:
  assumes f: "files s a = Some file"
  shows "\<exists>s1 s2. resolve_twice e a s = Some (s1, s2) \<and>
           metadata_calls s1 = metadata_calls s + 1 \<and>
           metadata_calls s2 = metadata_calls s + 2 \<and>
           (\<forall>f. FileByID e (bot s) (calls s) (FileID file) = (f, None) \<longrightarrow>
                files s1 a = Some (file\<lparr>FilePath := FilePath f\<rparr>))"
proof -
  from GetFile_total [OF f] obtain r1 s1 where g1: "GetFile e a s = Some (r1, s1)" by blast
  obtain f0 merr where m: "FileByID e (bot s) (calls s) (FileID file) = (f0, merr)"
    by (cases "FileByID e (bot s) (calls s) (FileID file)")
  from GetFile_files [OF f g1 m] f obtain file1 where f1: "files s1 a = Some file1"
    by (cases "merr = None") auto
  from GetFile_total [OF f1] obtain r2 s2 where g2: "GetFile e a s1 = Some (r2, s2)" by blast
  have "resolve_twice e a s = Some (s1, s2)" using g1 g2 by (simp add: resolve_twice_def)
  moreover have "metadata_calls s1 = metadata_calls s + 1"
    by (rule GetFile_one_metadata_call [OF f g1])
  moreover have "metadata_calls s2 = metadata_calls s + 2"
    using GetFile_one_metadata_call [OF f1 g2] GetFile_one_metadata_call [OF f g1] by simp
  moreover have "\<forall>f. FileByID e (bot s) (calls s) (FileID file) = (f, None) \<longrightarrow>
                files s1 a = Some (file\<lparr>FilePath := FilePath f\<rparr>)"
    using GetFile_files [OF f g1] by auto
  ultimately show ?thesis by blast
qed

lemma example_files:
  "files example_state 0 = Some remote_file" "files example_state 1 = Some stream_file"
  "files example_state 2 = Some local_file" "files example_state (Suc 0) = Some stream_file"
  by (simp_all add: example_state_def)

lemma example_meta:
  "FileByID (example_env ans) b h ''AgAD'' = (server_file ''AgAD'', None)"
  "FileByID (example_env ans) b h [] = (empty_file, Some ''Bad Request: invalid file_id'')"
  "NewRequest (example_env ans) u = None"
  "Do (example_env ans) h u = ans"
  "wrapError (example_env ans) x = Some (''telebot: '' @ x)"
  by (simp_all add: example_env_def)

lemma example_file_url: "file_url example_bot (server_file fid) = example_url"
  by (simp add: file_url_def example_bot_def server_file_def example_url_def)

lemma example_fields:
  "FileID remote_file = ''AgAD''" "FileID stream_file = []" "FileID local_file = []"
  "FilePath (server_file fid) = ''documents/file_7.pdf''"
  "calls example_state = []" "bot example_state = example_bot"
  "Body ok_response = 42" "StatusCode ok_response = 200"
  "Body not_found_response = 43" "StatusCode not_found_response = 404"
  "Status not_found_response = ''404 Not Found''"
  by (simp_all add: remote_file_def stream_file_def local_file_def server_file_def
      example_state_def ok_response_def not_found_response_def)

lemma example_run_ok:
  "GetFile (example_env (Inr ok_response)) 0 example_state =
     Some ((Some 42, None),
           example_state\<lparr>calls := [MetadataCall ''AgAD'', HttpDo example_url],
             files := (files example_state)(0 \<mapsto> remote_file\<lparr>FilePath := ''documents/file_7.pdf''\<rparr>)\<rparr>)"
proof -
  have "GetFile (example_env (Inr ok_response)) 0 example_state =
     Some ((Some (Body ok_response), None),
           example_state\<lparr>calls := calls example_state @
               [MetadataCall (FileID remote_file), HttpDo (file_url (bot example_state) (server_file ''AgAD''))],
             files := (files example_state)(0 \<mapsto> remote_file\<lparr>FilePath := FilePath (server_file ''AgAD'')\<rparr>)\<rparr>)"
    by (rule GetFile_ok) (simp_all add: example_files example_meta example_fields)
  then show ?thesis by (simp add: example_fields example_file_url)
qed

text \<open>The statement above at the example reference, against a server that answers 404.\<close>

theorem resolve_twice_metadata_calls_witness:
  "files example_state 0 = Some remote_file \<and>
   map_option (metadata_calls \<circ> fst) (resolve_twice (example_env (Inr not_found_response)) 0 example_state)
     = Some 1 \<and>
   map_option (metadata_calls \<circ> snd) (resolve_twice (example_env (Inr not_found_response)) 0 example_state)
     = Some 2"
  using resolve_twice_metadata_calls [of example_state 0 remote_file "example_env (Inr not_found_response)"]
  by (auto simp: example_files) (simp_all add: metadata_calls_def example_state_def)

lemma example_run_again:
  "GetFile (example_env (Inr ok_response)) 0 example_state1 = Some ((Some 42, None), example_state2)"
proof -
  let ?f = "remote_file\<lparr>FilePath := ''documents/file_7.pdf''\<rparr>"
  have "GetFile (example_env (Inr ok_response)) 0 example_state1 =
     Some ((Some (Body ok_response), None),
           example_state1\<lparr>calls := calls example_state1 @
               [MetadataCall (FileID ?f), HttpDo (file_url (bot example_state1) (server_file ''AgAD''))],
             files := (files example_state1)(0 \<mapsto> ?f\<lparr>FilePath := FilePath (server_file ''AgAD'')\<rparr>)\<rparr>)"
    by (rule GetFile_ok)
      (simp_all add: example_state1_def example_meta example_fields)
  then show ?thesis
    by (simp add: example_state2_def example_state1_def example_fields example_file_url)
qed

text \<open>
  Claim C2 as stated (two resolutions, one metadata call) fails: after the first
  resolution the path is stored in the reference, and the second resolution issues the
  metadata call again.
\<close>

theorem resolve_twice_single_metadata_call_counterexample:
  "resolve_twice (example_env (Inr ok_response)) 0 example_state =
     Some (example_state1, example_state2) \<and>
   cached_path 0 example_state1 = Some ''documents/file_7.pdf'' \<and>
   metadata_calls example_state = 0 \<and>
   metadata_calls example_state2 = 2"
  using example_run_ok example_run_again
  by (simp add: resolve_twice_def example_state1_def example_state2_def cached_path_def
      metadata_calls_def example_fields)

lemma file_url_not_spec: "file_url b f \<noteq> spec_file_url b f"
  by (simp add: file_url_def spec_file_url_def)

lemma example_bad_url:
  "FileByID bad_url_env b h ''AgAD'' = (server_file ''AgAD'', None)"
  "NewRequest bad_url_env u = Some ''invalid URL''"
  "wrapError bad_url_env x = Some (''telebot: '' @ x)"
  by (simp_all add: bad_url_env_def example_env_def)

text \<open>
  Claim C3, as amended. Once the metadata call has returned the path \<open>p\<close>, the only
  URL a binary fetch of \<^verbatim>\<open>GetFile\<close> goes to is \<^verbatim>\<open>base/file/bot{token}/{p}\<close>:
  the fetch is issued, once, when \<^verbatim>\<open>http.NewRequest\<close> accepts that URL, and no fetch
  is issued when it rejects it.
\<close>

theorem GetFile_binary_url:
  assumes fl: "files s a = Some ref"
    and m: "FileByID e (bot s) (calls s) (FileID ref) = (f, None)"
  shows "\<exists>r s' rest. GetFile e a s = Some (r, s') \<and>
           calls s' = calls s @ MetadataCall (FileID ref) # rest \<and>
           (\<forall>u. HttpDo u \<in> set rest \<longrightarrow>
              u = URL (bot s) @ ''/file/bot'' @ Token (bot s) @ ''/'' @ FilePath f) \<and>
           (NewRequest e (URL (bot s) @ ''/file/bot'' @ Token (bot s) @ ''/'' @ FilePath f) = None \<longrightarrow>
              (\<exists>rest'. rest = HttpDo (URL (bot s) @ ''/file/bot'' @ Token (bot s) @ ''/'' @ FilePath f) # rest' \<and>
                 (\<forall>u. HttpDo u \<notin> set rest'))) \<and>
           (NewRequest e (URL (bot s) @ ''/file/bot'' @ Token (bot s) @ ''/'' @ FilePath f) \<noteq> None \<longrightarrow>
              rest = [])"
proof (cases "NewRequest e (file_url (bot s) f)")
  case (Some x)
  from GetFile_request_failed [OF fl m Some] Some show ?thesis by (simp add: file_url_def)
next
  case None
  show ?thesis
  proof (cases "Do e (calls s @ [MetadataCall (FileID ref)]) (file_url (bot s) f)")
    case (Inl x)
    from GetFile_do_failed [OF fl m None Inl] None show ?thesis by (simp add: file_url_def)
  next
    case (Inr resp)
    show ?thesis
    proof (cases "StatusCode resp = 200")
      case True
      from GetFile_ok [OF fl m None Inr True] None show ?thesis by (simp add: file_url_def)
    next
      case False
      from GetFile_bad_status [OF fl m None Inr False] None show ?thesis by (simp add: file_url_def)
    qed
  qed
qed

text \<open>
  The statement above at the example reference, when the binary request times out and
  when the request cannot be built.
\<close>

theorem GetFile_binary_url_witness:
  "files example_state 0 = Some remote_file \<and>
   FileByID (example_env (Inl ''timeout'')) (bot example_state) (calls example_state) (FileID remote_file)
     = (server_file ''AgAD'', None) \<and>
   FileByID bad_url_env (bot example_state) (calls example_state) (FileID remote_file)
     = (server_file ''AgAD'', None) \<and>
   map_option (calls \<circ> snd) (GetFile (example_env (Inl ''timeout'')) 0 example_state)
     = Some [MetadataCall ''AgAD'', HttpDo ''https://api.telegram.org/file/bot42:XYZ/documents/file_7.pdf''] \<and>
   map_option (calls \<circ> snd) (GetFile bad_url_env 0 example_state) = Some [MetadataCall ''AgAD'']"
  using GetFile_binary_url [of example_state 0 remote_file "example_env (Inl ''timeout'')" "server_file ''AgAD''"]
    GetFile_binary_url [of example_state 0 remote_file bad_url_env "server_file ''AgAD''"]
    GetFile_do_failed [of example_state 0 remote_file "example_env (Inl ''timeout'')" "server_file ''AgAD''" "''timeout''"]
    GetFile_request_failed [of example_state 0 remote_file bad_url_env "server_file ''AgAD''" "''invalid URL''"]
  by (simp add: example_files example_meta example_fields example_file_url example_url_def example_bad_url)

text \<open>
  Claim C3 as stated fails: the URL \<^verbatim>\<open>base/bot{token}/{p}\<close> is never requested;
  the request goes to \<^verbatim>\<open>base/file/bot{token}/{p}\<close>.
\<close>

theorem GetFile_spec_url_counterexample:
  "GetFile (example_env (Inr ok_response)) 0 example_state = Some ((Some 42, None), example_state1) \<and>
   calls example_state1 =
     [MetadataCall ''AgAD'', HttpDo ''https://api.telegram.org/file/bot42:XYZ/documents/file_7.pdf''] \<and>
   spec_file_url example_bot (server_file ''AgAD'') = ''https://api.telegram.org/bot42:XYZ/documents/file_7.pdf'' \<and>
   HttpDo (spec_file_url example_bot (server_file ''AgAD'')) \<notin> set (calls example_state1)"
  using example_run_ok
  by (simp add: example_state1_def example_url_def spec_file_url_def example_bot_def server_file_def)

text \<open>
  Claim C5. Each failure is returned to the caller as a \<^verbatim>\<open>nil\<close> stream with a
  non-\<^verbatim>\<open>nil\<close> error: the error of the metadata call as it is, the error of building
  or of executing the request through \<^verbatim>\<open>wrapError\<close> (taken here never to return
  \<^verbatim>\<open>nil\<close> for an error), and for a status other than 200 an error whose message
  ends with the status received.
\<close>

theorem GetFile_failure_surfaced:
  assumes fl: "files s a = Some file"
    and m: "FileByID e (bot s) (calls s) (FileID file) = (f, merr)"
    and w: "\<forall>x. wrapError e x \<noteq> None"
  shows "(merr \<noteq> None \<longrightarrow> (\<exists>s'. GetFile e a s = Some ((None, merr), s'))) \<and>
    (\<forall>x. merr = None \<and> NewRequest e (file_url (bot s) f) = Some x \<longrightarrow>
       (\<exists>s'. GetFile e a s = Some ((None, wrapError e x), s')) \<and> wrapError e x \<noteq> None) \<and>
    (\<forall>x. merr = None \<and> NewRequest e (file_url (bot s) f) = None \<and>
         Do e (calls s @ [MetadataCall (FileID file)]) (file_url (bot s) f) = Inl x \<longrightarrow>
       (\<exists>s'. GetFile e a s = Some ((None, wrapError e x), s')) \<and> wrapError e x \<noteq> None) \<and>
    (\<forall>resp. merr = None \<and> NewRequest e (file_url (bot s) f) = None \<and>
         Do e (calls s @ [MetadataCall (FileID file)]) (file_url (bot s) f) = Inr resp \<and>
         StatusCode resp \<noteq> 200 \<longrightarrow>
       (\<exists>s'. GetFile e a s =
          Some ((None, Some (''telebot: expected status 200 but got '' @ Status resp)), s')))"
proof (intro conjI allI impI)
  assume "merr \<noteq> None"
  then obtain x where "merr = Some x" by auto
  with GetFile_metadata_failed [OF fl] m
  show "\<exists>s'. GetFile e a s = Some ((None, merr), s')" by simp
next
  fix x assume "merr = None \<and> NewRequest e (file_url (bot s) f) = Some x"
  with GetFile_request_failed [OF fl] m
  show "\<exists>s'. GetFile e a s = Some ((None, wrapError e x), s')" by simp
next
  fix x show "wrapError e x \<noteq> None" using w by simp
next
  fix x assume "merr = None \<and> NewRequest e (file_url (bot s) f) = None \<and>
         Do e (calls s @ [MetadataCall (FileID file)]) (file_url (bot s) f) = Inl x"
  with GetFile_do_failed [OF fl] m
  show "\<exists>s'. GetFile e a s = Some ((None, wrapError e x), s')" by simp
next
  fix x show "wrapError e x \<noteq> None" using w by simp
next
  fix resp assume "merr = None \<and> NewRequest e (file_url (bot s) f) = None \<and>
         Do e (calls s @ [MetadataCall (FileID file)]) (file_url (bot s) f) = Inr resp \<and>
         StatusCode resp \<noteq> 200"
  with GetFile_bad_status [OF fl] m
  show "\<exists>s'. GetFile e a s =
          Some ((None, Some (''telebot: expected status 200 but got '' @ Status resp)), s')"
    by (simp add: status_error_def)
qed

text \<open>The four failures at the example references.\<close>

theorem GetFile_failure_surfaced_witness:
  "files example_state 1 = Some stream_file \<and>
   map_option fst (GetFile (example_env (Inr ok_response)) 1 example_state)
     = Some (None, Some ''Bad Request: invalid file_id'') \<and>
   files example_state 0 = Some remote_file \<and>
   map_option fst (GetFile bad_url_env 0 example_state) = Some (None, Some ''telebot: invalid URL'') \<and>
   map_option fst (GetFile (example_env (Inl ''timeout'')) 0 example_state)
     = Some (None, Some ''telebot: timeout'') \<and>
   map_option fst (GetFile (example_env (Inr not_found_response)) 0 example_state)
     = Some (None, Some ''telebot: expected status 200 but got 404 Not Found'')"
  using
    GetFile_failure_surfaced [of example_state 1 stream_file "example_env (Inr ok_response)"
      empty_file "Some ''Bad Request: invalid file_id''"]
    GetFile_failure_surfaced [of example_state 0 remote_file bad_url_env
      "server_file ''AgAD''" None]
    GetFile_failure_surfaced [of example_state 0 remote_file "example_env (Inl ''timeout'')"
      "server_file ''AgAD''" None]
    GetFile_failure_surfaced [of example_state 0 remote_file "example_env (Inr not_found_response)"
      "server_file ''AgAD''" None]
  by (auto simp: example_files example_meta example_fields example_bad_url)

lemma frame_intro:
  assumes "g = Some (r, s\<lparr>calls := calls s @ new, files := (files s)(a \<mapsto> ref\<lparr>FilePath := p\<rparr>)\<rparr>)"
  shows "\<exists>r s' p new. g = Some (r, s') \<and> bot s' = bot s \<and>
           files s' = (files s)(a \<mapsto> ref\<lparr>FilePath := p\<rparr>) \<and>
           (\<forall>a'. a' \<noteq> a \<longrightarrow> files s' a' = files s a') \<and>
           calls s' = calls s @ new"
proof (intro exI conjI)
  show "g = Some (r, s\<lparr>calls := calls s @ new, files := (files s)(a \<mapsto> ref\<lparr>FilePath := p\<rparr>)\<rparr>)"
    by (rule assms)
qed simp_all

text \<open>
  Claim C7. A call of \<^verbatim>\<open>GetFile\<close> on a reference returns, and the state it leaves
  has the same bot, the same \<^verbatim>\<open>File\<close> object at every other address, the
  reference with at most its \<open>FilePath\<close> changed, and the events so far with new ones
  appended.
\<close>

theorem GetFile_frame:
  assumes fl: "files s a = Some ref"
  shows "\<exists>r s' p new. GetFile e a s = Some (r, s') \<and> bot s' = bot s \<and>
           files s' = (files s)(a \<mapsto> ref\<lparr>FilePath := p\<rparr>) \<and>
           (\<forall>a'. a' \<noteq> a \<longrightarrow> files s' a' = files s a') \<and>
           calls s' = calls s @ new"
  using fl
proof (cases rule: GetFile_branches [where e = e])
  case (meta f x)
  have same: "(files s)(a \<mapsto> ref\<lparr>FilePath := FilePath ref\<rparr>) = files s"
    using fl by (simp add: map_upd_triv)
  show ?thesis
    by (rule frame_intro [where p = "FilePath ref"])
      (simp only: same GetFile_metadata_failed [OF fl meta], simp)
next
  case (req f x)
  show ?thesis by (rule frame_intro) (rule GetFile_request_failed [OF fl req])
next
  case (do f x)
  show ?thesis by (rule frame_intro) (rule GetFile_do_failed [OF fl do])
next
  case (status f resp)
  show ?thesis by (rule frame_intro) (rule GetFile_bad_status [OF fl status])
next
  case (ok f resp)
  show ?thesis by (rule frame_intro) (rule GetFile_ok [OF fl ok])
qed

text \<open>The frame at the example reference.\<close>

theorem GetFile_frame_witness:
  "files example_state 0 = Some remote_file \<and>
   GetFile (example_env (Inr ok_response)) 0 example_state = Some ((Some 42, None), example_state1) \<and>
   bot example_state1 = bot example_state \<and>
   files example_state1 = (files example_state)(0 \<mapsto> remote_file\<lparr>FilePath := ''documents/file_7.pdf''\<rparr>) \<and>
   files example_state1 2 = files example_state 2 \<and>
   calls example_state1 = calls example_state @ [MetadataCall ''AgAD'', HttpDo example_url]"
  using GetFile_frame [of example_state 0 remote_file "example_env (Inr ok_response)"]
    example_run_ok
  by (simp add: example_state1_def example_state_def)

text \<open>
  Claim C9. When the binary endpoint answers with a status other than 200, the body of
  the response is closed after the request and before \<^verbatim>\<open>GetFile\<close> returns the
  error; no stream is returned.
\<close>

theorem GetFile_closes_body_on_bad_status:
  assumes "files s a = Some file"
    and "FileByID e (bot s) (calls s) (FileID file) = (f, None)"
    and "NewRequest e (file_url (bot s) f) = None"
    and "Do e (calls s @ [MetadataCall (FileID file)]) (file_url (bot s) f) = Inr resp"
    and "StatusCode resp \<noteq> 200"
  shows "\<exists>s'. GetFile e a s = Some ((None, Some (status_error resp)), s') \<and>
           calls s' = calls s @ [MetadataCall (FileID file), HttpDo (file_url (bot s) f),
                                 BodyClose (Body resp)]"
  using GetFile_bad_status [OF assms] by simp

text \<open>The example reference against a server that answers 404.\<close>

theorem GetFile_closes_body_on_bad_status_witness:
  "files example_state 0 = Some remote_file \<and>
   FileByID (example_env (Inr not_found_response)) (bot example_state) (calls example_state)
     (FileID remote_file) = (server_file ''AgAD'', None) \<and>
   NewRequest (example_env (Inr not_found_response)) (file_url (bot example_state) (server_file ''AgAD''))
     = None \<and>
   Do (example_env (Inr not_found_response)) (calls example_state @ [MetadataCall (FileID remote_file)])
     (file_url (bot example_state) (server_file ''AgAD'')) = Inr not_found_response \<and>
   StatusCode not_found_response = 404 \<and>
   map_option fst (GetFile (example_env (Inr not_found_response)) 0 example_state)
     = Some (None, Some ''telebot: expected status 200 but got 404 Not Found'') \<and>
   map_option (calls \<circ> snd) (GetFile (example_env (Inr not_found_response)) 0 example_state)
     = Some [MetadataCall ''AgAD'', HttpDo example_url, BodyClose 43]"
  using GetFile_closes_body_on_bad_status [of example_state 0 remote_file
      "example_env (Inr not_found_response)" "server_file ''AgAD''" not_found_response]
  by (auto simp: example_files example_meta example_fields example_file_url status_error_def)

text \<open>
  Claim C10. If the metadata call fails, \<^verbatim>\<open>GetFile\<close> returns its error and no
  \<^verbatim>\<open>File\<close> object has changed. If it succeeds, the reference's \<open>FilePath\<close> is
  the fetched path afterwards, whatever the rest of the call returns.
\<close>

theorem GetFile_cache_written_before_fetch:
  assumes "files s a = Some file"
    and "FileByID e (bot s) (calls s) (FileID file) = (f, merr)"
  shows "\<exists>r s'. GetFile e a s = Some (r, s') \<and>
           (merr \<noteq> None \<longrightarrow> files s' = files s \<and> r = (None, merr)) \<and>
           (merr = None \<longrightarrow> files s' = (files s)(a \<mapsto> file\<lparr>FilePath := FilePath f\<rparr>))"
proof -
  from GetFile_total [OF assms(1)] obtain r s' where g: "GetFile e a s = Some (r, s')" by blast
  have "merr \<noteq> None \<longrightarrow> r = (None, merr)"
  proof
    assume "merr \<noteq> None"
    then obtain x where "merr = Some x" by auto
    with GetFile_metadata_failed [OF assms(1), of e f x] assms(2) g show "r = (None, merr)" by simp
  qed
  with GetFile_files [OF assms(1) g assms(2)] g show ?thesis by auto
qed

text \<open>
  A failed metadata call, and the path stored although the binary request then answers
  404 or times out.
\<close>

theorem GetFile_cache_written_before_fetch_witness:
  "files example_state 1 = Some stream_file \<and>
   map_option (files \<circ> snd) (GetFile (example_env (Inr not_found_response)) 1 example_state)
     = Some (files example_state) \<and>
   files example_state 0 = Some remote_file \<and>
   map_option fst (GetFile (example_env (Inr not_found_response)) 0 example_state)
     = Some (None, Some ''telebot: expected status 200 but got 404 Not Found'') \<and>
   map_option (cached_path 0 \<circ> snd) (GetFile (example_env (Inr not_found_response)) 0 example_state)
     = Some (Some ''documents/file_7.pdf'') \<and>
   map_option (cached_path 0 \<circ> snd) (GetFile (example_env (Inl ''timeout'')) 0 example_state)
     = Some (Some ''documents/file_7.pdf'')"
  using
    GetFile_cache_written_before_fetch [of example_state 1 stream_file
      "example_env (Inr not_found_response)" empty_file "Some ''Bad Request: invalid file_id''"]
    GetFile_cache_written_before_fetch [of example_state 0 remote_file
      "example_env (Inr not_found_response)" "server_file ''AgAD''" None]
    GetFile_cache_written_before_fetch [of example_state 0 remote_file
      "example_env (Inl ''timeout'')" "server_file ''AgAD''" None]
    GetFile_bad_status [of example_state 0 remote_file
      "example_env (Inr not_found_response)" "server_file ''AgAD''" not_found_response]
  by (auto simp: example_files example_meta example_fields cached_path_def status_error_def)

lemma GetFile_returned_stream:
  assumes fl: "files s a = Some file" and g: "GetFile e a s = Some ((Some strm, err), s')"
  shows "\<exists>f resp. FileByID e (bot s) (calls s) (FileID file) = (f, None) \<and>
           Do e (calls s @ [MetadataCall (FileID file)]) (file_url (bot s) f) = Inr resp \<and>
           StatusCode resp = 200 \<and> strm = Body resp \<and> err = None"
  using fl
proof (cases rule: GetFile_branches [where e = e])
  case (meta f x)
  from GetFile_metadata_failed [OF fl meta] g show ?thesis by simp
next
  case (req f x)
  from GetFile_request_failed [OF fl req] g show ?thesis by simp
next
  case (do f x)
  from GetFile_do_failed [OF fl do] g show ?thesis by simp
next
  case (status f resp)
  from GetFile_bad_status [OF fl status] g show ?thesis by simp
next
  case (ok f resp)
  from GetFile_ok [OF fl ok] g ok show ?thesis by simp
qed

lemma GetFile_same_FileID:
  assumes fl: "files s a = Some file" and fl': "files t a = Some file'"
    and same: "FileID file' = FileID file" "bot t = bot s" "calls t = calls s"
    and g: "GetFile e a s = Some (r, s')" and g': "GetFile e a t = Some (r', t')"
  shows "r' = r \<and> calls t' = calls s'"
  using fl
proof (cases rule: GetFile_branches [where e = e])
  case (meta f x)
  from GetFile_metadata_failed [OF fl meta] GetFile_metadata_failed [OF fl', of e f x]
    meta same g g' show ?thesis by simp
next
  case (req f x)
  from GetFile_request_failed [OF fl req] GetFile_request_failed [OF fl', of e f x]
    req same g g' show ?thesis by simp
next
  case (do f x)
  from GetFile_do_failed [OF fl do] GetFile_do_failed [OF fl', of e f x]
    do same g g' show ?thesis by simp
next
  case (status f resp)
  from GetFile_bad_status [OF fl status] GetFile_bad_status [OF fl', of e f resp]
    status same g g' show ?thesis by simp
next
  case (ok f resp)
  from GetFile_ok [OF fl ok] GetFile_ok [OF fl', of e f resp]
    ok same g g' show ?thesis by simp
qed

text \<open>
  Claim C4, as amended. \<^verbatim>\<open>GetFile\<close> resolves every reference by its
  \<open>FileID\<close>: it starts with the metadata call whatever \<open>FileLocal\<close>,
  \<open>FileURL\<close> and \<open>FileReader\<close> hold, these three fields change neither the result
  nor the events, and a stream that is returned is the body of a 200 response of the
  binary endpoint.
\<close>

theorem GetFile_resolves_by_FileID_only:
  assumes fl: "files s a = Some ref"
  shows "\<exists>r t t'. GetFile e a s = Some (r, t) \<and>
           GetFile e a (s\<lparr>files := (files s)(a \<mapsto> ref\<lparr>FileLocal := l, FileURL := u, FileReader := rd\<rparr>)\<rparr>)
             = Some (r, t') \<and>
           calls t' = calls t \<and>
           (\<exists>rest. calls t = calls s @ MetadataCall (FileID ref) # rest) \<and>
           (\<forall>strm. fst r = Some strm \<longrightarrow>
              (\<exists>f resp. FileByID e (bot s) (calls s) (FileID ref) = (f, None) \<and>
                 Do e (calls s @ [MetadataCall (FileID ref)]) (file_url (bot s) f) = Inr resp \<and>
                 StatusCode resp = 200 \<and> strm = Body resp))"
proof -
  let ?ref' = "ref\<lparr>FileLocal := l, FileURL := u, FileReader := rd\<rparr>"
  let ?s' = "s\<lparr>files := (files s)(a \<mapsto> ?ref')\<rparr>"
  from GetFile_total [OF fl] obtain r t where g: "GetFile e a s = Some (r, t)" by blast
  have fl': "files ?s' a = Some ?ref'" by simp
  from GetFile_total [OF fl'] obtain r' t' where g': "GetFile e a ?s' = Some (r', t')" by blast
  have eq: "r' = r \<and> calls t' = calls t"
    by (rule GetFile_same_FileID [OF fl fl' _ _ _ g g']) simp_all
  from GetFile_calls [OF fl g]
  have c: "\<exists>rest. calls t = calls s @ MetadataCall (FileID ref) # rest" by blast
  have "\<forall>strm. fst r = Some strm \<longrightarrow>
              (\<exists>f resp. FileByID e (bot s) (calls s) (FileID ref) = (f, None) \<and>
                 Do e (calls s @ [MetadataCall (FileID ref)]) (file_url (bot s) f) = Inr resp \<and>
                 StatusCode resp = 200 \<and> strm = Body resp)"
  proof (intro allI impI)
    fix strm assume "fst r = Some strm"
    then have "GetFile e a s = Some ((Some strm, snd r), t)" using g by (cases r) simp
    from GetFile_returned_stream [OF fl this]
    show "\<exists>f resp. FileByID e (bot s) (calls s) (FileID ref) = (f, None) \<and>
                 Do e (calls s @ [MetadataCall (FileID ref)]) (file_url (bot s) f) = Inr resp \<and>
                 StatusCode resp = 200 \<and> strm = Body resp" by blast
  qed
  with g g' eq c show ?thesis by blast
qed

lemma example_run_stream:
  "GetFile (example_env ans) 1 example_state =
     Some ((None, Some ''Bad Request: invalid file_id''), example_state\<lparr>calls := [MetadataCall []]\<rparr>)"
  using GetFile_metadata_failed [of example_state 1 stream_file "example_env ans" empty_file
      "''Bad Request: invalid file_id''"]
  by (simp add: example_files example_meta example_fields)

lemma example_run_local:
  "GetFile (example_env ans) 2 example_state =
     Some ((None, Some ''Bad Request: invalid file_id''), example_state\<lparr>calls := [MetadataCall []]\<rparr>)"
  using GetFile_metadata_failed [of example_state 2 local_file "example_env ans" empty_file
      "''Bad Request: invalid file_id''"]
  by (simp add: example_files example_meta example_fields)

text \<open>
  Claim C4 as stated fails: a reference that holds an open stream, and one that holds a
  local path, are sent to the metadata call with their empty identifier, and its error
  is returned; the stream is not passed through and the path is not opened.
\<close>

theorem GetFile_four_forms_counterexample:
  "files example_state 1 = Some stream_file \<and> FileReader stream_file = Some 7 \<and>
   GetFile (example_env (Inr ok_response)) 1 example_state =
     Some ((None, Some ''Bad Request: invalid file_id''), example_state\<lparr>calls := [MetadataCall []]\<rparr>) \<and>
   files example_state 2 = Some local_file \<and> FileLocal local_file = ''/tmp/cat.png'' \<and>
   GetFile (example_env (Inr ok_response)) 2 example_state =
     Some ((None, Some ''Bad Request: invalid file_id''), example_state\<lparr>calls := [MetadataCall []]\<rparr>)"
  using example_run_stream example_run_local
  by (simp add: example_files stream_file_def local_file_def)

text \<open>The example reference with a local path, a URL and a stream added.\<close>

theorem GetFile_resolves_by_FileID_only_witness:
  "files example_state 0 = Some remote_file \<and>
   GetFile (example_env (Inr ok_response)) 0
     (example_state\<lparr>files := (files example_state)
        (0 \<mapsto> remote_file\<lparr>FileLocal := ''/tmp/cat.png'', FileURL := ''http://example.org/cat.png'',
                              FileReader := Some 7\<rparr>)\<rparr>)
   = Some ((Some 42, None),
       example_state\<lparr>calls := [MetadataCall ''AgAD'', HttpDo example_url],
         files := (files example_state)
           (0 \<mapsto> remote_file\<lparr>FileLocal := ''/tmp/cat.png'', FileURL := ''http://example.org/cat.png'',
                              FileReader := Some 7, FilePath := ''documents/file_7.pdf''\<rparr>)\<rparr>)"
  using GetFile_resolves_by_FileID_only [where s = example_state and a = 0 and ref = remote_file
      and e = "example_env (Inr ok_response)" and l = "''/tmp/cat.png''"
      and u = "''http://example.org/cat.png''" and rd = "Some 7"]
    GetFile_ok [of "example_state\<lparr>files := (files example_state)
        (0 \<mapsto> remote_file\<lparr>FileLocal := ''/tmp/cat.png'', FileURL := ''http://example.org/cat.png'',
                              FileReader := Some 7\<rparr>)\<rparr>" 0
        "remote_file\<lparr>FileLocal := ''/tmp/cat.png'', FileURL := ''http://example.org/cat.png'',
                              FileReader := Some 7\<rparr>" "example_env (Inr ok_response)"
        "server_file ''AgAD''" ok_response]
  by (simp add: example_files example_meta example_fields example_file_url)

section \<open>Properties of the long-poll strategy\<close>

lemma pushes_append: "pushes (xs @ ys) = pushes xs @ pushes ys"
  by (induction xs rule: pushes.induct) simp_all

lemma pushes_map_Push: "pushes (map Push us) = us"
  by (induction us) simp_all

lemma poll_append: "poll p (xs @ ys) = poll (poll p xs) ys"
  by (induction xs arbitrary: p) simp_all

lemma honoured_append: "honoured p (xs @ ys) = (honoured p xs \<and> honoured (poll p xs) ys)"
  by (induction xs arbitrary: p) auto

lemma poll_iteration_Stopped: "status p = Stopped \<Longrightarrow> poll_iteration t p = p"
  by (simp add: poll_iteration_def)

lemma poll_iteration_batch:
  "status p = Running \<Longrightarrow> us \<noteq> [] \<Longrightarrow>
   poll_iteration (Reply (Batch us)) p =
     p\<lparr>trace := trace p @ Fetch (cursor p) # map Push (sort_key ID us) @ [Advance (next_cursor us)],
       cursor := next_cursor us\<rparr>"
  by (simp add: poll_iteration_def)

lemma poll_iteration_fetch:
  "status p = Running \<Longrightarrow>
   \<exists>rest. trace (poll_iteration (Reply r) p) = trace p @ Fetch (cursor p) # rest"
  by (cases r) (simp_all add: poll_iteration_def Let_def)

lemma poll_iteration_no_batch:
  assumes "t = StopSignal \<or> t = Reply (Batch []) \<or> t = Reply NetworkError \<or> t = Reply RemoteError"
  shows "pushed (poll_iteration t p) = pushed p \<and> cursor (poll_iteration t p) = cursor p"
  using assms by (auto simp: poll_iteration_def pushed_def pushes_append Let_def)

lemma next_cursor_above: "u \<in> set us \<Longrightarrow> ID u < next_cursor us"
proof -
  assume "u \<in> set us"
  then have "ID u \<le> Max (ID ` set us)" by simp
  then show ?thesis by (simp add: next_cursor_def)
qed

lemma strict_sorted_batch:
  assumes "distinct (map ID us)"
  shows "sorted_wrt (<) (map ID (sort_key ID us))"
proof -
  have "mset (map ID (sort_key ID us)) = mset (map ID us)" by simp
  then have "distinct (map ID (sort_key ID us))"
    using assms mset_eq_imp_distinct_iff by blast
  moreover have "sorted (map ID (sort_key ID us))" by (rule sorted_sort_key)
  ultimately show ?thesis by (simp add: strict_sorted_iff)
qed

lemma poll_iteration_step:
  assumes inv: "delivered_in_order p"
    and h: "status p = Stopped \<or> honours_offset (cursor p) t"
  shows "delivered_in_order (poll_iteration t p) \<and> cursor p \<le> cursor (poll_iteration t p) \<and>
         (\<exists>new. pushed (poll_iteration t p) = pushed p @ new \<and> list_all (\<lambda>u. cursor p \<le> ID u) new)"
proof (cases "status p = Running \<and> (\<exists>us. us \<noteq> [] \<and> t = Reply (Batch us))")
  case True
  then obtain us where r: "status p = Running" and ne: "us \<noteq> []" and t: "t = Reply (Batch us)"
    by blast
  from h r t have ge: "list_all (\<lambda>u. cursor p \<le> ID u) us" and d: "distinct (map ID us)" by auto
  let ?p' = "poll_iteration t p"
  have p': "pushed ?p' = pushed p @ sort_key ID us" and c': "cursor ?p' = next_cursor us"
    using poll_iteration_batch [OF r ne] t by (simp_all add: pushed_def pushes_append pushes_map_Push)
  from ne obtain u0 where u0: "u0 \<in> set us" by (cases us) auto
  with ge have "cursor p \<le> ID u0" by (simp add: list_all_iff)
  with next_cursor_above [OF u0] have mono: "cursor p \<le> next_cursor us" by simp
  have new_ge: "list_all (\<lambda>u. cursor p \<le> ID u) (sort_key ID us)"
    using ge by (simp add: list_all_iff)
  have old_lt: "\<forall>u\<in>set (pushed p). ID u < cursor p"
    using inv by (simp add: delivered_in_order_def list_all_iff)
  have "sorted_wrt (<) (map ID (pushed p) @ map ID (sort_key ID us))"
    unfolding sorted_wrt_append
  proof (intro conjI ballI)
    show "sorted_wrt (<) (map ID (pushed p))" using inv by (simp add: delivered_in_order_def)
    show "sorted_wrt (<) (map ID (sort_key ID us))" by (rule strict_sorted_batch [OF d])
  next
    fix x y assume "x \<in> set (map ID (pushed p))" "y \<in> set (map ID (sort_key ID us))"
    then show "x < y" using old_lt ge by (fastforce simp: list_all_iff)
  qed
  moreover have "list_all (\<lambda>u. ID u < next_cursor us) (pushed p @ sort_key ID us)"
    using old_lt mono next_cursor_above [of _ us] by (fastforce simp: list_all_iff)
  ultimately have "delivered_in_order ?p'" by (simp add: delivered_in_order_def p' c')
  with mono new_ge p' c' show ?thesis by auto
next
  case False
  then consider "status p = Stopped"
    | "t = StopSignal \<or> t = Reply (Batch []) \<or> t = Reply NetworkError \<or> t = Reply RemoteError"
  proof -
    assume a: "status p = Stopped \<Longrightarrow> thesis"
      and b: "t = StopSignal \<or> t = Reply (Batch []) \<or> t = Reply NetworkError \<or> t = Reply RemoteError \<Longrightarrow> thesis"
    show thesis
    proof (cases "status p")
      case Stopped then show ?thesis by (rule a)
    next
      case Running
      with False have n: "\<forall>us. us \<noteq> [] \<longrightarrow> t \<noteq> Reply (Batch us)" by blast
      show ?thesis
      proof (cases t)
        case StopSignal then show ?thesis using b by simp
      next
        case (Reply r)
        then show ?thesis using n b by (cases r) auto
      qed
    qed
  qed
  then have same: "pushed (poll_iteration t p) = pushed p \<and> cursor (poll_iteration t p) = cursor p"
  proof cases
    case 1 then show ?thesis by (simp add: poll_iteration_Stopped)
  next
    case 2 then show ?thesis by (rule poll_iteration_no_batch)
  qed
  then have "delivered_in_order (poll_iteration t p)"
    using inv by (simp add: delivered_in_order_def)
  with same show ?thesis by simp
qed

lemma poll_steps:
  assumes "delivered_in_order p" and "honoured p ts"
  shows "delivered_in_order (poll p ts) \<and> cursor p \<le> cursor (poll p ts) \<and>
         (\<exists>new. pushed (poll p ts) = pushed p @ new \<and> list_all (\<lambda>u. cursor p \<le> ID u) new)"
  using assms
proof (induction ts arbitrary: p)
  case Nil
  then show ?case by simp
next
  case (Cons t ts)
  let ?q = "poll_iteration t p"
  from Cons.prems have h: "status p = Stopped \<or> honours_offset (cursor p) t"
    and hs: "honoured ?q ts" by simp_all
  from poll_iteration_step [OF Cons.prems(1) h]
  obtain new1 where q: "delivered_in_order ?q" and m1: "cursor p \<le> cursor ?q"
    and n1: "pushed ?q = pushed p @ new1" "list_all (\<lambda>u. cursor p \<le> ID u) new1" by blast
  from Cons.IH [OF q hs]
  obtain new2 where r: "delivered_in_order (poll ?q ts)" and m2: "cursor ?q \<le> cursor (poll ?q ts)"
    and n2: "pushed (poll ?q ts) = pushed ?q @ new2" "list_all (\<lambda>u. cursor ?q \<le> ID u) new2" by blast
  have "list_all (\<lambda>u. cursor p \<le> ID u) (new1 @ new2)"
    using n1(2) n2(2) m1 by (fastforce simp: list_all_iff)
  moreover have "pushed (poll p (t # ts)) = pushed p @ new1 @ new2" using n1(1) n2(1) by simp
  ultimately show ?case using r m1 m2 by (auto intro: exI [of _ "new1 @ new2"])
qed

lemma start_in_order: "delivered_in_order (start c)"
  by (simp add: delivered_in_order_def start_def pushed_def)

lemma poll_batch_then_fetch:
  assumes r: "status p = Running" and ne: "us \<noteq> []"
  shows "\<exists>rest. trace (poll p [Reply (Batch us), Reply r]) =
           trace p @ Fetch (cursor p) # map Push (sort_key ID us) @
             Advance (Max (ID ` set us) + 1) # Fetch (Max (ID ` set us) + 1) # rest"
proof -
  let ?q = "poll_iteration (Reply (Batch us)) p"
  have q: "?q = p\<lparr>trace := trace p @ Fetch (cursor p) # map Push (sort_key ID us) @ [Advance (next_cursor us)],
       cursor := next_cursor us\<rparr>" by (rule poll_iteration_batch [OF r ne])
  then have "status ?q = Running" using r by simp
  from poll_iteration_fetch [OF this, of r]
  obtain rest where "trace (poll_iteration (Reply r) ?q) = trace ?q @ Fetch (cursor ?q) # rest"
    by blast
  then show ?thesis using q by (simp add: next_cursor_def)
qed

lemma next_cursor_advances:
  assumes ne: "us \<noteq> []" and h: "honours_offset c (Reply (Batch us))"
  shows "c < next_cursor us"
proof -
  from ne obtain u0 where u0: "u0 \<in> set us" by (cases us) auto
  with h have "c \<le> ID u0" by (simp add: list_all_iff)
  with next_cursor_above [OF u0] show ?thesis by simp
qed

text \<open>
  Claim C1. Take any run of the loop in which the transport honours the offset of every
  fetch: a batch holds only sequence numbers not below the offset it was fetched with,
  and none twice. At every head of the loop the updates pushed so far lie below the
  cursor and everything pushed later lies at or above it, so no update below the cursor
  at the time of a fetch is pushed again, and no sequence number is pushed twice in the
  whole run; the cursor never moves back. A batch that is not empty moves the cursor
  forward to its largest sequence number plus one, above every update of the batch,
  after the last push of the batch and before the next fetch, which carries the new
  cursor.
\<close>

theorem poll_at_most_once:
  fixes ts1 ts2 :: "('m, 'c, 'q, 'r, 's, 'k, 'p, 'a, 'u) Update tick list"
  assumes "honoured (start c0) (ts1 @ ts2)"
  shows "(\<exists>new. pushed (poll (start c0) (ts1 @ ts2)) = pushed (poll (start c0) ts1) @ new \<and>
            list_all (\<lambda>u. cursor (poll (start c0) ts1) \<le> ID u) new) \<and>
         list_all (\<lambda>u. ID u < cursor (poll (start c0) ts1)) (pushed (poll (start c0) ts1)) \<and>
         distinct (map ID (pushed (poll (start c0) (ts1 @ ts2)))) \<and>
         cursor (poll (start c0) ts1) \<le> cursor (poll (start c0) (ts1 @ ts2)) \<and>
         (\<forall>us r ts3.
            ts2 = Reply (Batch us) # Reply r # ts3 \<and> status (poll (start c0) ts1) = Running \<and> us \<noteq> [] \<longrightarrow>
            cursor (poll (start c0) ts1) < Max (ID ` set us) + 1 \<and>
            list_all (\<lambda>u. ID u < Max (ID ` set us) + 1) us \<and>
            cursor (poll (start c0) (ts1 @ [Reply (Batch us)])) = Max (ID ` set us) + 1 \<and>
            (\<exists>rest. trace (poll (start c0) (ts1 @ [Reply (Batch us), Reply r])) =
               trace (poll (start c0) ts1) @ Fetch (cursor (poll (start c0) ts1)) #
                 map Push (sort_key ID us) @
                 Advance (Max (ID ` set us) + 1) # Fetch (Max (ID ` set us) + 1) # rest))"
proof -
  let ?p1 = "poll (start c0) ts1"
  from assms have h1: "honoured (start c0) ts1" and h2: "honoured ?p1 ts2"
    by (simp_all add: honoured_append)
  from poll_steps [OF start_in_order h1] have inv1: "delivered_in_order ?p1" by blast
  from poll_steps [OF inv1 h2]
  have inv2: "delivered_in_order (poll ?p1 ts2)"
    and mono: "cursor ?p1 \<le> cursor (poll ?p1 ts2)"
    and new: "\<exists>new. pushed (poll ?p1 ts2) = pushed ?p1 @ new \<and>
                list_all (\<lambda>u. cursor ?p1 \<le> ID u) new" by blast+
  have a: "\<exists>new. pushed (poll (start c0) (ts1 @ ts2)) = pushed (poll (start c0) ts1) @ new \<and>
            list_all (\<lambda>u. cursor (poll (start c0) ts1) \<le> ID u) new"
    using new by (simp only: poll_append)
  have b: "list_all (\<lambda>u. ID u < cursor ?p1) (pushed ?p1)"
    using inv1 by (simp add: delivered_in_order_def)
  have "distinct (map ID (pushed (poll ?p1 ts2)))"
    using inv2 by (simp add: delivered_in_order_def strict_sorted_iff)
  then have c: "distinct (map ID (pushed (poll (start c0) (ts1 @ ts2))))"
    by (simp only: poll_append)
  have m: "cursor ?p1 \<le> cursor (poll (start c0) (ts1 @ ts2))"
    using mono by (simp only: poll_append)
  have d: "\<forall>us r ts3.
            ts2 = Reply (Batch us) # Reply r # ts3 \<and> status ?p1 = Running \<and> us \<noteq> [] \<longrightarrow>
            cursor ?p1 < Max (ID ` set us) + 1 \<and>
            list_all (\<lambda>u. ID u < Max (ID ` set us) + 1) us \<and>
            cursor (poll (start c0) (ts1 @ [Reply (Batch us)])) = Max (ID ` set us) + 1 \<and>
            (\<exists>rest. trace (poll (start c0) (ts1 @ [Reply (Batch us), Reply r])) =
               trace ?p1 @ Fetch (cursor ?p1) # map Push (sort_key ID us) @
                 Advance (Max (ID ` set us) + 1) # Fetch (Max (ID ` set us) + 1) # rest)"
  proof (intro allI impI, elim conjE, intro conjI)
    fix us :: "('m, 'c, 'q, 'r, 's, 'k, 'p, 'a, 'u) Update list"
    fix r :: "('m, 'c, 'q, 'r, 's, 'k, 'p, 'a, 'u) Update fetched"
    fix ts3 :: "('m, 'c, 'q, 'r, 's, 'k, 'p, 'a, 'u) Update tick list"
    assume t: "ts2 = Reply (Batch us) # Reply r # ts3"
      and run: "status ?p1 = Running" and ne: "us \<noteq> []"
    from h2 t run have ho: "honours_offset (cursor ?p1) (Reply (Batch us))" by simp
    from next_cursor_advances [OF ne ho]
    show "cursor ?p1 < Max (ID ` set us) + 1" by (simp add: next_cursor_def)
    have "\<forall>u\<in>set us. ID u < next_cursor us" by (simp add: next_cursor_above)
    then show "list_all (\<lambda>u. ID u < Max (ID ` set us) + 1) us"
      unfolding next_cursor_def list_all_iff .
    have "cursor (poll_iteration (Reply (Batch us)) ?p1) = Max (ID ` set us) + 1"
      using poll_iteration_batch [OF run ne] by (simp add: next_cursor_def)
    then show "cursor (poll (start c0) (ts1 @ [Reply (Batch us)])) = Max (ID ` set us) + 1"
      by (simp add: poll_append)
    from poll_batch_then_fetch [OF run ne, of r]
    show "\<exists>rest. trace (poll (start c0) (ts1 @ [Reply (Batch us), Reply r])) =
               trace ?p1 @ Fetch (cursor ?p1) # map Push (sort_key ID us) @
                 Advance (Max (ID ` set us) + 1) # Fetch (Max (ID ` set us) + 1) # rest"
      by (simp only: poll_append)
  qed
  show ?thesis by (intro conjI a b c m d)
qed

lemma example_ids: "ID (message_update n) = n" "ID (bare_update n) = n"
  by (simp_all add: message_update_def bare_update_def)

text \<open>
  A run in the manner of the end-to-end scenario of section 8: a batch with the updates
  1 and 2, a batch with 3 and 4, a network error, an empty batch, a batch with the
  update 5, and the stop signal.
\<close>

theorem poll_at_most_once_witness:
  "honoured (start 0)
     ([Reply (Batch [message_update 2, message_update 1])] @
      [Reply (Batch [message_update 4, message_update 3]), Reply NetworkError,
       Reply (Batch []), Reply (Batch [message_update 5]), StopSignal]) \<and>
   status (poll (start 0) [Reply (Batch [message_update 2, message_update 1])]) = Running \<and>
   cursor (poll (start 0) [Reply (Batch [message_update 2, message_update 1])]) = 3 \<and>
   pushed (poll (start 0) [Reply (Batch [message_update 2, message_update 1])])
     = [message_update 1, message_update 2] \<and>
   pushed (poll (start 0)
     ([Reply (Batch [message_update 2, message_update 1])] @
      [Reply (Batch [message_update 4, message_update 3]), Reply NetworkError,
       Reply (Batch []), Reply (Batch [message_update 5]), StopSignal]))
     = [message_update 1, message_update 2, message_update 3, message_update 4, message_update 5] \<and>
   trace (poll (start 0)
     ([Reply (Batch [message_update 2, message_update 1])] @
      [Reply (Batch [message_update 4, message_update 3]), Reply NetworkError]))
     = [Fetch 0, Push (message_update 1), Push (message_update 2), Advance 3,
        Fetch 3, Push (message_update 3), Push (message_update 4), Advance 5,
        Fetch 5, Backoff]"
proof -
  have h: "honoured (start 0)
     ([Reply (Batch [message_update 2, message_update 1])] @
      [Reply (Batch [message_update 4, message_update 3]), Reply NetworkError,
       Reply (Batch []), Reply (Batch [message_update 5]), StopSignal])"
    by (simp add: poll_iteration_def start_def next_cursor_def example_ids)
  from poll_at_most_once [OF h] h show ?thesis
    by (simp add: poll_iteration_def start_def next_cursor_def example_ids pushed_def)
qed

section \<open>Properties of command extraction\<close>

lemma is_space_examples: "is_space CHR '' ''" "\<not> is_space CHR ''@''" "\<not> is_space CHR ''/''"
  by (simp_all add: is_space_def)

lemma extract_command_plain:
  assumes tok: "list_all (\<lambda>c. \<not> is_space c \<and> c \<noteq> CHR ''@'') tok" and w: "is_space w"
  shows "extract_command (CHR ''/'' # tok @ w # payload) = Some (tok, payload)"
proof -
  have t: "takeWhile (\<lambda>x. \<not> is_space x \<and> x \<noteq> CHR ''@'') (tok @ w # payload) = tok"
    using tok w by (simp add: list_all_iff takeWhile_append2)
  have d: "dropWhile (\<lambda>x. \<not> is_space x) (tok @ w # payload) = w # payload"
    using tok w by (simp add: list_all_iff dropWhile_append2)
  show ?thesis by (simp add: extract_command_def t d)
qed

lemma extract_command_botname:
  assumes tok: "list_all (\<lambda>c. \<not> is_space c \<and> c \<noteq> CHR ''@'') tok"
    and name: "list_all (\<lambda>c. \<not> is_space c) name" and w: "is_space w"
  shows "extract_command (CHR ''/'' # tok @ CHR ''@'' # name @ w # payload) = Some (tok, payload)"
proof -
  have t: "takeWhile (\<lambda>x. \<not> is_space x \<and> x \<noteq> CHR ''@'') (tok @ CHR ''@'' # name @ w # payload) = tok"
    using tok by (simp add: list_all_iff takeWhile_append2)
  have "list_all (\<lambda>c. \<not> is_space c) (tok @ CHR ''@'' # name)"
    using tok name by (auto simp: list_all_iff is_space_examples)
  then have d: "dropWhile (\<lambda>x. \<not> is_space x) ((tok @ CHR ''@'' # name) @ w # payload) = w # payload"
    using w by (simp only: list_all_iff dropWhile_append2) simp
  show ?thesis using t d by (simp add: extract_command_def)
qed

lemma extract_command_bare:
  assumes tok: "list_all (\<lambda>c. \<not> is_space c \<and> c \<noteq> CHR ''@'') tok"
  shows "extract_command (CHR ''/'' # tok) = Some (tok, [])"
proof -
  have t: "takeWhile (\<lambda>x. \<not> is_space x \<and> x \<noteq> CHR ''@'') tok = tok"
    using tok by (simp add: list_all_iff)
  have d: "dropWhile (\<lambda>x. \<not> is_space x) tok = []"
    using tok by (simp add: list_all_iff)
  show ?thesis by (simp add: extract_command_def t d)
qed

lemma extract_command_botname_bare:
  assumes tok: "list_all (\<lambda>c. \<not> is_space c \<and> c \<noteq> CHR ''@'') tok"
    and name: "list_all (\<lambda>c. \<not> is_space c) name"
  shows "extract_command (CHR ''/'' # tok @ CHR ''@'' # name) = Some (tok, [])"
proof -
  have t: "takeWhile (\<lambda>x. \<not> is_space x \<and> x \<noteq> CHR ''@'') (tok @ CHR ''@'' # name) = tok"
    using tok by (simp add: list_all_iff takeWhile_append2)
  have "\<forall>c\<in>set (tok @ CHR ''@'' # name). \<not> is_space c"
    using tok name by (auto simp: list_all_iff is_space_examples)
  then have d: "dropWhile (\<lambda>x. \<not> is_space x) (tok @ CHR ''@'' # name) = []"
    by (simp only: dropWhile_eq_Nil_conv) 
  show ?thesis by (simp only: extract_command_def list.case t d) simp
qed

text \<open>
  Claim C6. For a text that begins with \<^verbatim>\<open>/\<close>, the discriminator is the token up
  to the first whitespace or \<^verbatim>\<open>@\<close>, a suffix \<^verbatim>\<open>@botname\<close> is ignored, with or
  without a payload after it, and the payload is what follows the whitespace after the
  command (nothing when the text ends there); \<^verbatim>\<open>/start foo bar\<close> gives
  \<^verbatim>\<open>start\<close> and \<^verbatim>\<open>foo bar\<close>, and \<^verbatim>\<open>/start@botname foo\<close> gives
  \<^verbatim>\<open>start\<close>.
\<close>

theorem extract_command_discriminator_payload:
  assumes "list_all (\<lambda>c. \<not> is_space c \<and> c \<noteq> CHR ''@'') tok"
    and "list_all (\<lambda>c. \<not> is_space c) name" and "is_space w"
  shows "extract_command (CHR ''/'' # tok @ w # payload) = Some (tok, payload) \<and>
         extract_command (CHR ''/'' # tok @ CHR ''@'' # name @ w # payload) = Some (tok, payload) \<and>
         extract_command (CHR ''/'' # tok) = Some (tok, []) \<and>
         extract_command (CHR ''/'' # tok @ CHR ''@'' # name) = Some (tok, []) \<and>
         extract_command ''/start foo bar'' = Some (''start'', ''foo bar'') \<and>
         map_option fst (extract_command ''/start@botname foo'') = Some ''start''"
proof -
  have "extract_command ''/start foo bar'' = Some (''start'', ''foo bar'')"
    by (simp add: extract_command_def is_space_def)
  moreover have "map_option fst (extract_command ''/start@botname foo'') = Some ''start''"
    by (simp add: extract_command_def is_space_def)
  ultimately show ?thesis
    using extract_command_plain [OF assms(1,3)] extract_command_botname [OF assms]
      extract_command_bare [OF assms(1)] extract_command_botname_bare [OF assms(1,2)] by simp
qed

text \<open>The command that \<^verbatim>\<open>main\<close> registers, with and without the name of the bot.\<close>

theorem extract_command_discriminator_payload_witness:
  "list_all (\<lambda>c. \<not> is_space c \<and> c \<noteq> CHR ''@'') ''hello'' \<and>
   list_all (\<lambda>c. \<not> is_space c) ''tgbot'' \<and> is_space CHR '' '' \<and>
   extract_command ''/hello big world'' = Some (''hello'', ''big world'') \<and>
   extract_command ''/hello@tgbot big world'' = Some (''hello'', ''big world'') \<and>
   extract_command ''/hello'' = Some (''hello'', []) \<and>
   extract_command ''/hello@tgbot'' = Some (''hello'', [])"
  using extract_command_discriminator_payload [of "''hello''" "''tgbot''" "CHR '' ''" "''big world''"]
  by (simp add: is_space_def)

section \<open>Properties of \<^verbatim>\<open>Update\<close>\<close>

lemma populated_all:
  "populated u \<le> 13"
  "populated (u\<lparr>Message := Some m\<rparr>) = populated (u\<lparr>Message := None\<rparr>) + 1"
  "populated (u\<lparr>EditedMessage := Some m\<rparr>) = populated (u\<lparr>EditedMessage := None\<rparr>) + 1"
  "populated (u\<lparr>ChannelPost := Some m\<rparr>) = populated (u\<lparr>ChannelPost := None\<rparr>) + 1"
  "populated (u\<lparr>EditedChannelPost := Some m\<rparr>) = populated (u\<lparr>EditedChannelPost := None\<rparr>) + 1"
  "populated (u\<lparr>Callback := Some c\<rparr>) = populated (u\<lparr>Callback := None\<rparr>) + 1"
  "populated (u\<lparr>Query := Some q\<rparr>) = populated (u\<lparr>Query := None\<rparr>) + 1"
  "populated (u\<lparr>ChosenInlineResult := Some r\<rparr>) = populated (u\<lparr>ChosenInlineResult := None\<rparr>) + 1"
  "populated (u\<lparr>ShippingQuery := Some sq\<rparr>) = populated (u\<lparr>ShippingQuery := None\<rparr>) + 1"
  "populated (u\<lparr>PreCheckoutQuery := Some k\<rparr>) = populated (u\<lparr>PreCheckoutQuery := None\<rparr>) + 1"
  "populated (u\<lparr>Poll := Some pl\<rparr>) = populated (u\<lparr>Poll := None\<rparr>) + 1"
  "populated (u\<lparr>PollAnswer := Some pa\<rparr>) = populated (u\<lparr>PollAnswer := None\<rparr>) + 1"
  "populated (u\<lparr>MyChatMember := Some cm\<rparr>) = populated (u\<lparr>MyChatMember := None\<rparr>) + 1"
  "populated (u\<lparr>ChatMember := Some cm\<rparr>) = populated (u\<lparr>ChatMember := None\<rparr>) + 1"
  "populated (u\<lparr>Message := None, EditedMessage := None, ChannelPost := None,
      EditedChannelPost := None, Callback := None, Query := None, ChosenInlineResult := None,
      ShippingQuery := None, PreCheckoutQuery := None, Poll := None, PollAnswer := None,
      MyChatMember := None, ChatMember := None\<rparr>) = 0"
  by (simp_all add: populated_def of_bool_def)

text \<open>
  Claim C8, as amended. The thirteen payload fields of an \<^verbatim>\<open>Update\<close> are optional
  and independent of each other: populating any one of the thirteen adds one to the
  number of populated fields whatever the other twelve hold, an update with every payload
  field \<^verbatim>\<open>nil\<close> has none populated, and no update has more than thirteen.
\<close>

theorem populated_at_most_thirteen:
  "populated u \<le> 13 \<and>
   populated (u\<lparr>Message := Some m\<rparr>) = populated (u\<lparr>Message := None\<rparr>) + 1 \<and>
   populated (u\<lparr>EditedMessage := Some m\<rparr>) = populated (u\<lparr>EditedMessage := None\<rparr>) + 1 \<and>
   populated (u\<lparr>ChannelPost := Some m\<rparr>) = populated (u\<lparr>ChannelPost := None\<rparr>) + 1 \<and>
   populated (u\<lparr>EditedChannelPost := Some m\<rparr>) = populated (u\<lparr>EditedChannelPost := None\<rparr>) + 1 \<and>
   populated (u\<lparr>Callback := Some c\<rparr>) = populated (u\<lparr>Callback := None\<rparr>) + 1 \<and>
   populated (u\<lparr>Query := Some q\<rparr>) = populated (u\<lparr>Query := None\<rparr>) + 1 \<and>
   populated (u\<lparr>ChosenInlineResult := Some r\<rparr>) = populated (u\<lparr>ChosenInlineResult := None\<rparr>) + 1 \<and>
   populated (u\<lparr>ShippingQuery := Some sq\<rparr>) = populated (u\<lparr>ShippingQuery := None\<rparr>) + 1 \<and>
   populated (u\<lparr>PreCheckoutQuery := Some k\<rparr>) = populated (u\<lparr>PreCheckoutQuery := None\<rparr>) + 1 \<and>
   populated (u\<lparr>Poll := Some pl\<rparr>) = populated (u\<lparr>Poll := None\<rparr>) + 1 \<and>
   populated (u\<lparr>PollAnswer := Some pa\<rparr>) = populated (u\<lparr>PollAnswer := None\<rparr>) + 1 \<and>
   populated (u\<lparr>MyChatMember := Some cm\<rparr>) = populated (u\<lparr>MyChatMember := None\<rparr>) + 1 \<and>
   populated (u\<lparr>ChatMember := Some cm\<rparr>) = populated (u\<lparr>ChatMember := None\<rparr>) + 1 \<and>
   populated (u\<lparr>Message := None, EditedMessage := None, ChannelPost := None,
      EditedChannelPost := None, Callback := None, Query := None, ChosenInlineResult := None,
      ShippingQuery := None, PreCheckoutQuery := None, Poll := None, PollAnswer := None,
      MyChatMember := None, ChatMember := None\<rparr>) = 0"
  by (intro conjI populated_all)

text \<open>
  Claim C8 as stated fails: the zero value with a sequence number has no payload field
  populated, an update with a poll and a chat-member change has two, and one with every
  payload field set has thirteen.
\<close>

theorem populated_exactly_one_counterexample:
  "populated (bare_update 5) = 0 \<and>
   populated ((bare_update 6)\<lparr>Poll := Some (), ChatMember := Some ()\<rparr>) = 2 \<and>
   populated ((bare_update 7)\<lparr>Message := Some (), EditedMessage := Some (), ChannelPost := Some (),
      EditedChannelPost := Some (), Callback := Some (), Query := Some (),
      ChosenInlineResult := Some (), ShippingQuery := Some (), PreCheckoutQuery := Some (),
      Poll := Some (), PollAnswer := Some (), MyChatMember := Some (), ChatMember := Some ()\<rparr>) = 13"
  by (simp add: populated_def bare_update_def)

end
